theory Spec2Isabelle
  imports Complex_Main
begin

section \<open>Amortization schedules (zad7.py)\<close>

text \<open>
  Python floats are idealised as \<^typ>\<open>real\<close>: every arithmetic operation of the source is
  the exact operation here, so rounding, overflow and NaN are outside the model. Python
  integers (\<open>T_years\<close>, \<open>n_per_year\<close>, \<open>period\<close>, days) are \<^typ>\<open>int\<close>. A division whose
  divisor is zero raises \<open>ZeroDivisionError\<close> in Python, for integers and floats alike;
  the model returns it as \<open>Inl ZeroDivisionError\<close>.
\<close>

datatype py_error = ZeroDivisionError

text \<open>
  One dictionary appended to \<open>schedule\<close>, with the source's five keys. The fields take
  the keys' names, so the local variables \<open>total_payment\<close>, \<open>interest_payment\<close> and
  \<open>principal_payment\<close> of the source are written \<open>total_pmt\<close>, \<open>interest_pmt\<close> and
  \<open>principal_pmt\<close> below.
\<close>

record schedule_row =
  period :: int
  initial_principal :: real
  total_payment :: real
  interest_payment :: real
  principal_payment :: real

text \<open>The loop state: \<open>(schedule, total_interest, current_principal)\<close>.\<close>

type_synonym loop_state = "schedule_row list \<times> real \<times> real"

text \<open>
  \<open>math.pow(x, y)\<close> for an integer exponent \<open>y\<close> and a base \<open>x > 0\<close> (the only
  use in the source has base \<open>1 + r_p\<close> with \<open>r_p > 0\<close>).
\<close>

definition math_pow :: "real \<Rightarrow> int \<Rightarrow> real" where
  "math_pow x y = (if 0 \<le> y then x ^ nat y else inverse (x ^ nat (- y)))"

text \<open>Body of the loop of \<open>calculate_constant_principal_schedule\<close> (lines 34 to 46).\<close>

fun constant_principal_step :: "real \<Rightarrow> real \<Rightarrow> int \<Rightarrow> loop_state \<Rightarrow> loop_state" where
  "constant_principal_step r_p principal_pmt k (schedule, total_interest, current_principal) =
     (let interest_pmt = current_principal * r_p;
          total_pmt = principal_pmt + interest_pmt
      in (schedule @ [\<lparr> period = k,
                        initial_principal = current_principal,
                        total_payment = total_pmt,
                        interest_payment = interest_pmt,
                        principal_payment = principal_pmt \<rparr>],
          total_interest + interest_pmt,
          current_principal - principal_pmt))"

fun constant_principal_loop :: "real \<Rightarrow> real \<Rightarrow> int list \<Rightarrow> loop_state \<Rightarrow> loop_state" where
  "constant_principal_loop r_p principal_pmt [] st = st"
| "constant_principal_loop r_p principal_pmt (k # ks) st =
     constant_principal_loop r_p principal_pmt ks
       (constant_principal_step r_p principal_pmt k st)"

text \<open>
  \<open>calculate_constant_principal_schedule(P, r_pa, T_years, n_per_year)\<close>.
  \<open>range(1, N + 1)\<close> is the list \<open>[1..N]\<close>, empty when \<open>N < 1\<close>.
\<close>

definition calculate_constant_principal_schedule ::
    "real \<Rightarrow> real \<Rightarrow> int \<Rightarrow> int \<Rightarrow> py_error + (schedule_row list \<times> real)" where
  "calculate_constant_principal_schedule P r_pa T_years n_per_year =
     (if n_per_year = 0 then Inl ZeroDivisionError
      else let r_p = r_pa / of_int n_per_year;
               N = T_years * n_per_year
           in if N = 0 then Inl ZeroDivisionError
              else let principal_pmt = P / of_int N;
                       (schedule, total_interest, current_principal) =
                          constant_principal_loop r_p principal_pmt [1..N] ([], 0, P)
                   in Inr (schedule, total_interest))"

text \<open>Body of the loop of \<open>calculate_annuity_schedule\<close> (lines 73 to 85).\<close>

fun annuity_step :: "real \<Rightarrow> real \<Rightarrow> int \<Rightarrow> loop_state \<Rightarrow> loop_state" where
  "annuity_step r_p total_pmt k (schedule, total_interest, current_principal) =
     (let interest_pmt = current_principal * r_p;
          principal_pmt = total_pmt - interest_pmt
      in (schedule @ [\<lparr> period = k,
                        initial_principal = current_principal,
                        total_payment = total_pmt,
                        interest_payment = interest_pmt,
                        principal_payment = principal_pmt \<rparr>],
          total_interest + interest_pmt,
          current_principal - principal_pmt))"

fun annuity_loop :: "real \<Rightarrow> real \<Rightarrow> int list \<Rightarrow> loop_state \<Rightarrow> loop_state" where
  "annuity_loop r_p total_pmt [] st = st"
| "annuity_loop r_p total_pmt (k # ks) st =
     annuity_loop r_p total_pmt ks (annuity_step r_p total_pmt k st)"

text \<open>
  The constant payment of lines 65 to 68; both divisions can raise.
\<close>

definition annuity_payment :: "real \<Rightarrow> real \<Rightarrow> int \<Rightarrow> py_error + real" where
  "annuity_payment P r_p N =
     (if r_p > 0 then
        (let d = 1 - math_pow (1 + r_p) (- N)
         in if d = 0 then Inl ZeroDivisionError else Inr (P * (r_p / d)))
      else if N = 0 then Inl ZeroDivisionError
      else Inr (P / of_int N))"

definition calculate_annuity_schedule ::
    "real \<Rightarrow> real \<Rightarrow> int \<Rightarrow> int \<Rightarrow> py_error + (schedule_row list \<times> real)" where
  "calculate_annuity_schedule P r_pa T_years n_per_year =
     (if n_per_year = 0 then Inl ZeroDivisionError
      else let r_p = r_pa / of_int n_per_year;
               N = T_years * n_per_year
           in case annuity_payment P r_p N of
                Inl e \<Rightarrow> Inl e
              | Inr total_pmt \<Rightarrow>
                  (let (schedule, total_interest, current_principal) =
                          annuity_loop r_p total_pmt [1..N] ([], 0, P)
                   in Inr (schedule, total_interest)))"

section \<open>Day-weighted interest accrual (zestaw1/zad1.py)\<close>

text \<open>
  The \<open>transactions\<close> dictionary is the list of its items in insertion order; a Python
  dictionary has each key once, which is the hypothesis \<open>distinct (map fst transactions)\<close>
  of the theorems below. \<open>sorted(transactions.items())\<close> compares the items as tuples, and
  with each key once the keys alone decide the order: \<open>sort_key fst\<close>.
\<close>

type_synonym transactions = "(int \<times> real) list"

text \<open>
  \<open>d[key] = value\<close> on an insertion-ordered dictionary: an existing key keeps its place
  and takes the new value, a new key goes to the end.
\<close>

fun dict_setitem :: "transactions \<Rightarrow> int \<Rightarrow> real \<Rightarrow> transactions" where
  "dict_setitem [] key v = [(key, v)]"
| "dict_setitem ((k, a) # items) key v =
     (if k = key then (k, v) # items else (k, a) # dict_setitem items key v)"

text \<open>Lines 8 and 9: the dictionary that the loop iterates over.\<close>

definition sorted_transactions :: "transactions \<Rightarrow> int \<Rightarrow> transactions" where
  "sorted_transactions transactions days_in_month =
     dict_setitem (sort_key fst transactions) (days_in_month + 1) 0"

text \<open>The loop state: \<open>(total_interest, current_balance, processed_through_day)\<close>.\<close>

type_synonym accrual_state = "real \<times> real \<times> int"

text \<open>Body of the loop (lines 12 to 19) for one item \<open>(day, amount)\<close>.\<close>

fun accrual_step :: "real \<Rightarrow> int \<times> real \<Rightarrow> accrual_state \<Rightarrow> accrual_state" where
  "accrual_step daily_rate (day, amount) (total_interest, current_balance, processed_through_day) =
     (let num_days = (day - 1) - processed_through_day;
          total_interest' =
            (if num_days > 0
             then total_interest + current_balance * daily_rate * of_int num_days
             else total_interest)
      in (total_interest', current_balance + amount, day - 1))"

fun accrual_loop :: "real \<Rightarrow> transactions \<Rightarrow> accrual_state \<Rightarrow> accrual_state" where
  "accrual_loop daily_rate [] st = st"
| "accrual_loop daily_rate (item # items) st =
     accrual_loop daily_rate items (accrual_step daily_rate item st)"

definition calculate_monthly_interest ::
    "real \<Rightarrow> transactions \<Rightarrow> int \<Rightarrow> real \<Rightarrow> real \<times> real" where
  "calculate_monthly_interest start_balance transactions days_in_month annual_rate =
     (let daily_rate = annual_rate / 365;
          (total_interest, current_balance, processed_through_day) =
             accrual_loop daily_rate (sorted_transactions transactions days_in_month)
               (0, start_balance, 0);
          closing_balance = current_balance + total_interest
      in (total_interest, closing_balance))"

section \<open>Properties of a schedule and of a month, as the specification words them\<close>


text \<open>
  A proof device for the chain: the rows lead from the balance \<open>b\<close> to the balance \<open>e\<close>.
\<close>

fun linked :: "real \<Rightarrow> schedule_row list \<Rightarrow> real \<Rightarrow> bool" where
  "linked b [] e \<longleftrightarrow> b = e"
| "linked b (row # rows) e \<longleftrightarrow>
     initial_principal row = b \<and>
     linked (initial_principal row - principal_payment row) rows e"

text \<open>
  The accrual invariant in the specification's words. The balance held on day \<open>d\<close> is the
  starting balance plus every transaction dated on or before \<open>d\<close>; interest is no part of it.
  The sub-periods run between consecutive transaction days, from day 1 to the day after the
  month's last day.
\<close>

definition balance_held :: "real \<Rightarrow> transactions \<Rightarrow> int \<Rightarrow> real" where
  "balance_held start_balance transactions d =
     start_balance + sum_list (map snd (filter (\<lambda>item. fst item \<le> d) transactions))"

definition sub_periods :: "transactions \<Rightarrow> int \<Rightarrow> (int \<times> int) list" where
  "sub_periods transactions days_in_month =
     (let days = sort (map fst transactions)
      in zip (1 # days) (days @ [days_in_month + 1]))"

definition sub_period_interest :: "real \<Rightarrow> transactions \<Rightarrow> int \<Rightarrow> real \<Rightarrow> real" where
  "sub_period_interest start_balance transactions days_in_month annual_rate =
     sum_list (map (\<lambda>(b, e). balance_held start_balance transactions b
                               * (annual_rate / 365) * of_int (e - b))
                   (sub_periods transactions days_in_month))"

text \<open>
  The state of the loop when it reaches the item of day \<open>d\<close>, and what the body then adds
  to \<open>total_interest\<close> before it applies that day's amount.
\<close>

definition state_before :: "real \<Rightarrow> transactions \<Rightarrow> int \<Rightarrow> real \<Rightarrow> int \<Rightarrow> accrual_state" where
  "state_before start_balance transactions days_in_month annual_rate d =
     accrual_loop (annual_rate / 365)
       (takeWhile (\<lambda>item. fst item \<noteq> d) (sorted_transactions transactions days_in_month))
       (0, start_balance, 0)"

definition pre_transaction_days :: "real \<Rightarrow> transactions \<Rightarrow> int \<Rightarrow> real \<Rightarrow> int \<Rightarrow> int" where
  "pre_transaction_days start_balance transactions days_in_month annual_rate d =
     (d - 1) - snd (snd (state_before start_balance transactions days_in_month annual_rate d))"

definition pre_transaction_interest ::
    "real \<Rightarrow> transactions \<Rightarrow> int \<Rightarrow> real \<Rightarrow> int \<times> real \<Rightarrow> real" where
  "pre_transaction_interest start_balance transactions days_in_month annual_rate item =
     (let st = state_before start_balance transactions days_in_month annual_rate (fst item)
      in fst (accrual_step (annual_rate / 365) item st) - fst st)"

text \<open>The latest transaction day before \<open>d\<close>, or day 1 when there is none.\<close>

definition previous_day :: "transactions \<Rightarrow> int \<Rightarrow> int" where
  "previous_day transactions d =
     foldr max (filter (\<lambda>k. k < d) (map fst transactions)) 1"

section \<open>Schedules: the loops and the balance chain\<close>

lemma linked_snoc:
  "linked b rows m \<Longrightarrow> initial_principal row = m \<Longrightarrow>
   linked b (rows @ [row]) (initial_principal row - principal_payment row)"
  by (induction rows arbitrary: b) auto






lemma ann_loop_inv:
  "linked b s cp \<Longrightarrow>
   annuity_loop r pmt ks (s, ti, cp) = (s', ti', cp') \<Longrightarrow>
   linked b s' cp' \<and> length s' = length s + length ks \<and>
   map total_payment s' = map total_payment s @ replicate (length ks) pmt"
proof (induction ks arbitrary: s ti cp)
  case Nil
  then show ?case by simp
next
  case (Cons k ks)
  let ?row = "\<lparr> period = k, initial_principal = cp, total_payment = pmt,
                 interest_payment = cp * r, principal_payment = pmt - cp * r \<rparr>"
  have l: "linked b (s @ [?row]) (cp - (pmt - cp * r))"
    using linked_snoc [OF Cons.prems(1), of ?row] by simp
  have "annuity_loop r pmt ks (s @ [?row], ti + cp * r, cp - (pmt - cp * r)) = (s', ti', cp')"
    using Cons.prems(2) by (simp add: Let_def)
  from Cons.IH [OF l this] show ?case
    by (simp add: algebra_simps replicate_append_same)
qed



lemma cp_loop_interest0:
  "fst (snd (constant_principal_loop 0 pp ks (s, ti, cp))) = ti"
  by (induction ks arbitrary: s ti cp) (simp_all add: Let_def)

lemma ann_loop_interest0:
  "fst (snd (annuity_loop 0 pmt ks (s, ti, cp))) = ti"
  by (induction ks arbitrary: s ti cp) (simp_all add: Let_def)

lemma math_pow_neg: "0 < N \<Longrightarrow> math_pow x (- N) = inverse (x ^ nat N)"
  by (simp add: math_pow_def)

lemma annuity_payment_pos:
  assumes "0 < r" and "0 < N"
  shows "annuity_payment P r N = Inr (P * (r / (1 - inverse ((1 + r) ^ nat N))))"
proof -
  have "1 < (1 + r) ^ nat N"
    using assms by (intro one_less_power) auto
  then have "inverse ((1 + r) ^ nat N) \<noteq> 1"
    by (simp add: field_simps)
  then show ?thesis
    using assms by (simp add: annuity_payment_def math_pow_neg Let_def)
qed

lemma annuity_payment_zero: "N \<noteq> 0 \<Longrightarrow> annuity_payment P 0 N = Inr (P / of_int N)"
  by (simp add: annuity_payment_def)


lemma constant_principal_result:
  assumes "0 < T_years" and "0 < n_per_year"
  obtains s ti cp where
    "constant_principal_loop (r_pa / of_int n_per_year) (P / of_int (T_years * n_per_year))
        [1..T_years * n_per_year] ([], 0, P) = (s, ti, cp)"
    "calculate_constant_principal_schedule P r_pa T_years n_per_year = Inr (s, ti)"
proof -
  have N: "T_years * n_per_year \<noteq> 0" "n_per_year \<noteq> 0" using assms by auto
  obtain s ti cp where
    l: "constant_principal_loop (r_pa / of_int n_per_year) (P / of_int (T_years * n_per_year))
        [1..T_years * n_per_year] ([], 0, P) = (s, ti, cp)"
    by (cases "constant_principal_loop (r_pa / of_int n_per_year)
                 (P / of_int (T_years * n_per_year)) [1..T_years * n_per_year] ([], 0, P)")
  then have "calculate_constant_principal_schedule P r_pa T_years n_per_year = Inr (s, ti)"
    using N by (simp add: calculate_constant_principal_schedule_def Let_def)
  with l that show thesis by blast
qed

lemma annuity_result:
  assumes "0 < T_years" and "0 < n_per_year" and "0 \<le> r_pa"
  obtains pmt s ti cp where
    "annuity_payment P (r_pa / of_int n_per_year) (T_years * n_per_year) = Inr pmt"
    "annuity_loop (r_pa / of_int n_per_year) pmt [1..T_years * n_per_year] ([], 0, P) = (s, ti, cp)"
    "calculate_annuity_schedule P r_pa T_years n_per_year = Inr (s, ti)"
proof -
  have N: "0 < T_years * n_per_year" "n_per_year \<noteq> 0" using assms by auto
  have "\<exists>pmt. annuity_payment P (r_pa / of_int n_per_year) (T_years * n_per_year) = Inr pmt"
  proof (cases "r_pa = 0")
    case True
    have "T_years * n_per_year \<noteq> 0" using N(1) by linarith
    from annuity_payment_zero [OF this, of P] True show ?thesis by auto
  next
    case False
    then have "0 < r_pa / of_int n_per_year" using assms by simp
    from annuity_payment_pos [OF this N(1)] show ?thesis by blast
  qed
  then obtain pmt where
    p: "annuity_payment P (r_pa / of_int n_per_year) (T_years * n_per_year) = Inr pmt" ..
  obtain s ti cp where
    l: "annuity_loop (r_pa / of_int n_per_year) pmt [1..T_years * n_per_year] ([], 0, P) = (s, ti, cp)"
    by (cases "annuity_loop (r_pa / of_int n_per_year) pmt [1..T_years * n_per_year] ([], 0, P)")
  have "calculate_annuity_schedule P r_pa T_years n_per_year = Inr (s, ti)"
    using N p l by (simp add: calculate_annuity_schedule_def Let_def)
  with p l that show thesis by blast
qed






text \<open>
  Claim C6. With \<open>r_pa = 0\<close> and positive \<open>T_years\<close> and \<open>n_per_year\<close> (any principal),
  both builders return total interest 0; the annuity payment is computed by the branch
  \<open>P / N\<close> of \<open>annuity_payment\<close> (the periodic rate \<open>0 / n_per_year\<close> is not positive), and
  every row of the annuity schedule has that total payment.
\<close>

theorem zero_rate_no_interest:
  assumes "0 < T_years" and "0 < n_per_year"
  shows "\<exists>s1 s2.
           calculate_constant_principal_schedule P 0 T_years n_per_year = Inr (s1, 0) \<and>
           calculate_annuity_schedule P 0 T_years n_per_year = Inr (s2, 0) \<and>
           annuity_payment P (0 / of_int n_per_year) (T_years * n_per_year) =
             Inr (P / of_int (T_years * n_per_year)) \<and>
           length s2 = nat (T_years * n_per_year) \<and>
           (\<forall>row\<in>set s2. total_payment row = P / of_int (T_years * n_per_year))"
proof -
  define N where "N = T_years * n_per_year"
  have N: "0 < N" unfolding N_def using assms by simp
  have start: "linked P [] P" by simp
  obtain s1 t1 c1 where
    l1: "constant_principal_loop (0 / of_int n_per_year) (P / of_int N) [1..N] ([], 0, P)
           = (s1, t1, c1)"
    and r1: "calculate_constant_principal_schedule P 0 T_years n_per_year = Inr (s1, t1)"
    using constant_principal_result [OF assms, of 0 P] unfolding N_def by blast
  from l1 cp_loop_interest0 [of "P / of_int N" "[1..N]" "[]" 0 P] have "t1 = 0" by simp
  obtain pmt s2 t2 c2 where
    p: "annuity_payment P (0 / of_int n_per_year) N = Inr pmt"
    and l2: "annuity_loop (0 / of_int n_per_year) pmt [1..N] ([], 0, P) = (s2, t2, c2)"
    and r2: "calculate_annuity_schedule P 0 T_years n_per_year = Inr (s2, t2)"
    using annuity_result [OF assms, of 0 P] unfolding N_def by blast
  from l2 ann_loop_interest0 [of pmt "[1..N]" "[]" 0 P] have "t2 = 0" by simp
  from N have "N \<noteq> 0" by simp
  from p annuity_payment_zero [OF this, of P] have pmt: "pmt = P / of_int N" by simp
  note inv = ann_loop_inv [OF start l2]
  from inv have len: "length s2 = nat N" by simp
  from inv have m: "map total_payment s2 = replicate (nat N) pmt" by simp
  have each: "total_payment row = P / of_int N" if "row \<in> set s2" for row
  proof -
    from that have "total_payment row \<in> set (map total_payment s2)" by simp
    then show ?thesis unfolding m pmt by simp
  qed
  from r1 r2 \<open>t1 = 0\<close> \<open>t2 = 0\<close> p pmt len each show ?thesis unfolding N_def by auto
qed

theorem zero_rate_no_interest_witness:
  "(0::int) < 1 \<and> (0::int) < 4 \<and>
   (\<exists>s1 s2.
      calculate_constant_principal_schedule 10000 0 1 4 = Inr (s1, 0) \<and>
      calculate_annuity_schedule 10000 0 1 4 = Inr (s2, 0) \<and>
      annuity_payment 10000 (0 / of_int 4) (1 * 4) = Inr 2500 \<and>
      length s2 = 4 \<and>
      (\<forall>row\<in>set s2. total_payment row = 2500))"
  using zero_rate_no_interest [of 1 4 10000] by simp

section \<open>Schedules: the worked example and the parameter checks\<close>

lemma annuity_example_payment:
  "annuity_payment 10000 ((1 / 10) / of_int 4) (1 * 4) = Inr (706440250 / 265761)"
  by (simp add: annuity_payment_def math_pow_def Let_def power_divide)

lemma upto_1_4: "[1..4] = [1, 2, 3, 4::int]"
  by code_simp

lemma annuity_example:
  "calculate_annuity_schedule 10000 (1 / 10) 1 4 =
     Inr ([\<lparr> period = 1, initial_principal = 10000, total_payment = 706440250 / 265761,
              interest_payment = 250, principal_payment = 640000000 / 265761 \<rparr>,
           \<lparr> period = 2, initial_principal = 2017610000 / 265761,
              total_payment = 706440250 / 265761,
              interest_payment = 50440250 / 265761, principal_payment = 656000000 / 265761 \<rparr>,
           \<lparr> period = 3, initial_principal = 16810000 / 3281,
              total_payment = 706440250 / 265761,
              interest_payment = 420250 / 3281, principal_payment = 672400000 / 265761 \<rparr>,
           \<lparr> period = 4, initial_principal = 689210000 / 265761,
              total_payment = 706440250 / 265761,
              interest_payment = 17230250 / 265761, principal_payment = 689210000 / 265761 \<rparr>],
          168151000 / 265761)"
  by (simp add: calculate_annuity_schedule_def annuity_payment_def math_pow_def Let_def
      power_divide upto_1_4)

text \<open>
  Claim C4, as stated, fails. For principal 10000, rate 0.10, one year and 4 periods per
  year the code returns 4 rows whose total payment is \<open>706440250 / 265761\<close>, more than 1
  away from 2585.98, and the total interest \<open>168151000 / 265761\<close>, outside 340.16 to 340.20.
\<close>

theorem annuity_example_not_2585:
  "(case calculate_annuity_schedule 10000 (1 / 10) 1 4 of
      Inl e \<Rightarrow> False
    | Inr (schedule, total_interest) \<Rightarrow>
        map total_payment schedule = replicate 4 (706440250 / 265761) \<and>
        \<not> \<bar>706440250 / 265761 - 2585.98\<bar> \<le> (1::real) \<and>
        total_interest = 168151000 / 265761 \<and>
        \<not> (340.16 \<le> total_interest \<and> total_interest \<le> 340.20))"
  by (simp add: annuity_example numeral_eq_Suc)

text \<open>
  Claim C4, amended. The annuity schedule for principal 10000, rate 0.10, one year and
  4 periods per year has 4 rows, each with total payment \<open>706440250 / 265761\<close>, which is
  2658.18 to the cent, and the returned total interest lies between 632.71 and 632.72.
\<close>

theorem annuity_example_amended:
  "(case calculate_annuity_schedule 10000 (1 / 10) 1 4 of
      Inl e \<Rightarrow> False
    | Inr (schedule, total_interest) \<Rightarrow>
        map total_payment schedule = replicate 4 (706440250 / 265761) \<and>
        \<bar>706440250 / 265761 - 2658.18\<bar> \<le> (0.005::real) \<and>
        632.71 \<le> total_interest \<and> total_interest \<le> 632.72)"
  by (simp add: annuity_example numeral_eq_Suc)

text \<open>
  Claim C5, as stated, fails. With \<open>n_per_year = -4\<close> (and \<open>T_years = 1\<close>) neither builder
  raises: \<open>N = -4\<close>, no division is by zero, \<open>range(1, N + 1)\<close> is empty, and both return
  the empty schedule with total interest 0.
\<close>

theorem negative_frequency_no_error:
  "calculate_constant_principal_schedule 10000 (1 / 10) 1 (- 4) = Inr ([], 0) \<and>
   calculate_annuity_schedule 10000 (1 / 10) 1 (- 4) = Inr ([], 0)"
  by (simp add: calculate_constant_principal_schedule_def calculate_annuity_schedule_def
      annuity_payment_def math_pow_def Let_def)

text \<open>
  Claim C5, amended. When \<open>n_per_year\<close> is 0 or \<open>T_years\<close> is 0, both builders raise
  \<open>ZeroDivisionError\<close> (from \<open>r_pa / n_per_year\<close>, from \<open>P / N\<close>, or from the annuity
  division) and return no schedule.
\<close>

theorem zero_parameter_raises:
  assumes "n_per_year = 0 \<or> T_years = 0"
  shows "calculate_constant_principal_schedule P r_pa T_years n_per_year = Inl ZeroDivisionError \<and>
         calculate_annuity_schedule P r_pa T_years n_per_year = Inl ZeroDivisionError"
  using assms
  by (auto simp add: calculate_constant_principal_schedule_def calculate_annuity_schedule_def
      annuity_payment_def math_pow_def Let_def)

theorem zero_parameter_raises_witness:
  "((0::int) = 0 \<or> (1::int) = 0) \<and>
   calculate_constant_principal_schedule 10000 (1 / 10) 1 0 = Inl ZeroDivisionError \<and>
   calculate_annuity_schedule 10000 (1 / 10) 1 0 = Inl ZeroDivisionError"
  using zero_parameter_raises [of 0 1 10000 "1 / 10"] by simp

section \<open>Accrual: the sorted dictionary\<close>

lemma sum_list_insort_key:
  fixes g :: "'a \<Rightarrow> real"
  shows "sum_list (map g (insort_key f x xs)) = g x + sum_list (map g xs)"
  by (induction xs) simp_all

lemma sum_list_sort_key:
  fixes g :: "'a \<Rightarrow> real"
  shows "sum_list (map g (sort_key f xs)) = sum_list (map g xs)"
  by (induction xs) (simp_all add: sum_list_insort_key)

lemma sum_list_filter_sort_key:
  fixes g :: "'a \<Rightarrow> real"
  shows "sum_list (map g (filter Q (sort_key f xs))) = sum_list (map g (filter Q xs))"
  by (simp add: filter_sort sum_list_sort_key)

lemma map_insort_key: "map f (insort_key f x xs) = insort (f x) (map f xs)"
  by (induction xs) simp_all

lemma map_sort_key: "map f (sort_key f xs) = sort (map f xs)"
  by (induction xs) (simp_all add: map_insort_key)

lemma keys_ascending:
  assumes "distinct (map fst (transactions :: transactions))"
  shows "sorted_wrt (<) (map fst (sort_key fst transactions))"
proof -
  have "distinct (map fst (sort_key fst transactions))"
    using assms by (simp add: map_sort_key)
  then show ?thesis by (simp add: strict_sorted_iff)
qed

lemma dict_setitem_new:
  "key \<notin> fst ` set items \<Longrightarrow> dict_setitem items key v = items @ [(key, v)]"
  by (induction items key v rule: dict_setitem.induct) auto

lemma dict_setitem_keys:
  "key \<in> fst ` set items \<Longrightarrow> map fst (dict_setitem items key v) = map fst items"
  by (induction items key v rule: dict_setitem.induct) auto

lemma dict_setitem_value:
  "map_of (dict_setitem items key v) key = Some v"
  by (induction items key v rule: dict_setitem.induct) auto


lemma sum_dict_setitem:
  "distinct (map fst items) \<Longrightarrow>
   sum_list (map snd (dict_setitem items key 0)) =
   sum_list (map snd (filter (\<lambda>item. fst item \<noteq> key) items))"
proof (induction items key "0::real" rule: dict_setitem.induct)
  case (1 key)
  then show ?case by simp
next
  case (2 k a items key)
  show ?case
  proof (cases "k = key")
    case True
    with "2.prems" have "\<forall>item\<in>set items. fst item \<noteq> key" by auto
    then have "filter (\<lambda>item. fst item \<noteq> key) items = items"
      by (simp add: filter_id_conv)
    with True show ?thesis by simp
  next
    case False
    with 2 show ?thesis by simp
  qed
qed

section \<open>Accrual: the loop\<close>

lemma accrual_loop_append:
  "accrual_loop r (xs @ ys) st = accrual_loop r ys (accrual_loop r xs st)"
  by (induction xs arbitrary: st) simp_all

lemma accrual_loop_balance:
  "fst (snd (accrual_loop r items (ti, bal, p))) = bal + sum_list (map snd items)"
proof (induction items arbitrary: ti bal p)
  case Nil
  then show ?case by simp
next
  case (Cons item items)
  obtain day amount where item: "item = (day, amount)" by (cases item)
  show ?case unfolding item by (simp add: Let_def Cons.IH)
qed

lemma accrual_loop_day:
  "snd (snd (accrual_loop r items (ti, bal, p))) =
     (if items = [] then p else fst (last items) - 1)"
proof (induction items arbitrary: ti bal p)
  case Nil
  then show ?case by simp
next
  case (Cons item items)
  obtain day amount where item: "item = (day, amount)" by (cases item)
  show ?case unfolding item by (simp add: Let_def Cons.IH)
qed

lemma accrual_step_interest:
  assumes "p + 1 \<le> day"
  shows "fst (accrual_step r (day, amount) (ti, bal, p)) = ti + bal * r * of_int (day - 1 - p)"
proof (cases "day - 1 - p > 0")
  case True
  then show ?thesis by (simp add: Let_def)
next
  case False
  with assms have "day - 1 - p = 0" by simp
  then show ?thesis by (simp add: Let_def)
qed

lemma accrual_loop_interest:
  assumes "sorted_wrt (<) (map fst items)"
    and "\<forall>k\<in>set (map fst items). p + 1 \<le> k"
  shows "fst (accrual_loop r items (ti, bal, p)) =
           ti + sum_list (map (\<lambda>(b, e).
                   (bal + sum_list (map snd (filter (\<lambda>item. fst item \<le> b) items)))
                     * r * of_int (e - b))
                 (zip ((p + 1) # map fst items) (map fst items)))"
  using assms
proof (induction items arbitrary: ti bal p)
  case Nil
  then show ?case by simp
next
  case (Cons item items)
  obtain day amount where item: "item = (day, amount)" by (cases item)
  define ks where "ks = map fst items"
  define f where "f = (\<lambda>(b, e).
     (bal + sum_list (map snd (filter (\<lambda>item. fst item \<le> b) ((day, amount) # items))))
       * r * of_int (e - b))"
  define g where "g = (\<lambda>(b, e).
     (bal + amount + sum_list (map snd (filter (\<lambda>item. fst item \<le> b) items)))
       * r * of_int (e - b))"
  from Cons.prems item have later: "\<forall>k\<in>set ks. day < k"
    and sorted: "sorted_wrt (<) (map fst items)" and day: "p + 1 \<le> day"
    by (auto simp: ks_def)
  from later have ge: "\<forall>k\<in>set (map fst items). (day - 1) + 1 \<le> k"
    by (auto simp: ks_def)
  let ?ti = "fst (accrual_step r (day, amount) (ti, bal, p))"
  have step: "accrual_step r (day, amount) (ti, bal, p) = (?ti, bal + amount, day - 1)"
    by (simp add: Let_def)
  have none: "filter (\<lambda>it. fst it \<le> p + 1) items = []"
    using later day by (auto simp: filter_empty_conv ks_def)
  have first: "f (p + 1, day) = bal * r * of_int (day - 1 - p)"
  proof (cases "day = p + 1")
    case True
    then show ?thesis by (simp add: f_def)
  next
    case False
    with day have "\<not> day \<le> p + 1" by simp
    then show ?thesis using none by (simp add: f_def algebra_simps)
  qed
  have rest: "map f (zip (day # ks) ks) = map g (zip (day # ks) ks)"
  proof (rule map_cong [OF refl])
    fix x assume x: "x \<in> set (zip (day # ks) ks)"
    obtain b e where be: "x = (b, e)" by (cases x)
    with x have "b \<in> set (day # ks)" by (auto dest: set_zip_leftD)
    with later have "day \<le> b" by auto
    then show "f x = g x" unfolding be f_def g_def by simp
  qed
  have z: "zip ((p + 1) # map fst ((day, amount) # items)) (map fst ((day, amount) # items)) =
             (p + 1, day) # zip (day # ks) ks"
    by (simp add: ks_def)
  have "fst (accrual_loop r (item # items) (ti, bal, p)) =
          fst (accrual_loop r items (?ti, bal + amount, day - 1))"
    unfolding item using step by simp
  also have "\<dots> = ?ti + sum_list (map g (zip (((day - 1) + 1) # map fst items) (map fst items)))"
    unfolding g_def by (rule Cons.IH [OF sorted ge])
  also have "\<dots> = ?ti + sum_list (map g (zip (day # ks) ks))"
    by (simp add: ks_def)
  also have "?ti = ti + bal * r * of_int (day - 1 - p)"
    by (rule accrual_step_interest [OF day])
  also have "ti + bal * r * of_int (day - 1 - p) + sum_list (map g (zip (day # ks) ks)) =
             ti + sum_list (map f ((p + 1, day) # zip (day # ks) ks))"
    unfolding list.map sum_list.Cons first rest by simp
  finally show ?case
    unfolding item z f_def .
qed

section \<open>Accrual: the month's result\<close>

lemma calculate_monthly_interest_fst:
  "fst (calculate_monthly_interest start_balance transactions days_in_month annual_rate) =
     fst (accrual_loop (annual_rate / 365) (sorted_transactions transactions days_in_month)
            (0, start_balance, 0))"
  by (simp add: calculate_monthly_interest_def Let_def case_prod_beta)

lemma calculate_monthly_interest_snd:
  "snd (calculate_monthly_interest start_balance transactions days_in_month annual_rate) =
     start_balance + sum_list (map snd (sorted_transactions transactions days_in_month)) +
     fst (calculate_monthly_interest start_balance transactions days_in_month annual_rate)"
proof -
  let ?st = "accrual_loop (annual_rate / 365) (sorted_transactions transactions days_in_month)
               (0, start_balance, 0)"
  have "fst (snd ?st) =
          start_balance + sum_list (map snd (sorted_transactions transactions days_in_month))"
    by (rule accrual_loop_balance)
  then show ?thesis
    by (simp add: calculate_monthly_interest_def Let_def case_prod_beta)
qed

lemma sorted_transactions_in_month:
  assumes "\<forall>k\<in>set (map fst transactions). k \<le> days_in_month"
  shows "sorted_transactions transactions days_in_month =
           sort_key fst transactions @ [(days_in_month + 1, 0)]"
proof -
  have "days_in_month + 1 \<notin> fst ` set (sort_key fst transactions)"
    using assms by auto
  then show ?thesis
    unfolding sorted_transactions_def by (rule dict_setitem_new)
qed

lemma zip_shorter: "length xs = length ys \<Longrightarrow> zip (xs @ zs) ys = zip xs ys"
  by (simp add: zip_append1)

text \<open>
  Claim C3. For every starting balance and annual rate, every positive \<open>days_in_month\<close> and
  every transactions dictionary whose day keys lie in \<open>1..days_in_month\<close>, the pair
  \<open>(total_interest, closing_balance)\<close> returned by \<open>calculate_monthly_interest\<close> satisfies:
  the closing balance is the starting balance plus the sum of all transaction amounts plus
  the total interest; and the total interest is the sum, over the sub-periods between
  consecutive transaction days, of the balance held in the sub-period times
  \<open>annual_rate / 365\<close> times its number of days (\<open>sub_period_interest\<close>). The balance held
  never contains interest, which enters the closing balance only.
\<close>

theorem closing_balance_and_sub_period_interest:
  assumes "distinct (map fst transactions)"
    and "\<forall>k\<in>set (map fst transactions). 1 \<le> k \<and> k \<le> days_in_month"
    and "0 < days_in_month"
  shows "snd (calculate_monthly_interest start_balance transactions days_in_month annual_rate) =
           start_balance + sum_list (map snd transactions) +
           fst (calculate_monthly_interest start_balance transactions days_in_month annual_rate) \<and>
         fst (calculate_monthly_interest start_balance transactions days_in_month annual_rate) =
           sub_period_interest start_balance transactions days_in_month annual_rate"
proof -
  let ?S = "sort_key fst transactions"
  let ?items = "?S @ [(days_in_month + 1, 0::real)]"
  let ?days = "sort (map fst transactions)"
  let ?r = "annual_rate / 365"
  have items: "sorted_transactions transactions days_in_month = ?items"
    using assms(2) by (intro sorted_transactions_in_month) auto
  have days: "map fst ?S = ?days" by (rule map_sort_key)
  have total: "sum_list (map snd ?items) = sum_list (map snd transactions)"
    by (simp add: sum_list_sort_key)
  have asc: "sorted_wrt (<) (map fst ?items)"
    using keys_ascending [OF assms(1)] assms(2) by (auto simp: sorted_wrt_append)
  have low: "\<forall>k\<in>set (map fst ?items). 0 + 1 \<le> k"
    using assms(2,3) by auto
  have held: "start_balance + sum_list (map snd (filter (\<lambda>item. fst item \<le> b) ?items)) =
              balance_held start_balance transactions b" for b
    by (simp add: balance_held_def sum_list_filter_sort_key)
  have pairs: "zip ((0 + 1) # map fst ?items) (map fst ?items) =
               sub_periods transactions days_in_month"
    unfolding sub_periods_def Let_def using zip_shorter [of "1 # ?days" "?days @ [days_in_month + 1]" "[days_in_month + 1]"]
    by (simp add: days)
  have "fst (calculate_monthly_interest start_balance transactions days_in_month annual_rate) =
          fst (accrual_loop ?r ?items (0, start_balance, 0))"
    by (simp only: calculate_monthly_interest_fst items)
  also have "\<dots> = 0 + sum_list (map (\<lambda>(b, e).
                   (start_balance + sum_list (map snd (filter (\<lambda>item. fst item \<le> b) ?items)))
                     * ?r * of_int (e - b))
                 (zip ((0 + 1) # map fst ?items) (map fst ?items)))"
    by (rule accrual_loop_interest [OF asc low])
  also have "\<dots> = sub_period_interest start_balance transactions days_in_month annual_rate"
    unfolding held pairs sub_period_interest_def by simp
  finally have interest:
    "fst (calculate_monthly_interest start_balance transactions days_in_month annual_rate) =
       sub_period_interest start_balance transactions days_in_month annual_rate" .
  have "snd (calculate_monthly_interest start_balance transactions days_in_month annual_rate) =
          start_balance + sum_list (map snd transactions) +
          fst (calculate_monthly_interest start_balance transactions days_in_month annual_rate)"
    by (simp only: calculate_monthly_interest_snd items total)
  with interest show ?thesis by blast
qed

theorem closing_balance_and_sub_period_interest_witness:
  "distinct (map fst [(5::int, 17000::real), (12, 35000), (21, - 55000)]) \<and>
   list_all (\<lambda>k. 1 \<le> k \<and> k \<le> (31::int))
     (map fst [(5::int, 17000::real), (12, 35000), (21, - 55000)]) \<and>
   (0::int) < 31 \<and>
   snd (calculate_monthly_interest 100000 [(5, 17000), (12, 35000), (21, - 55000)] 31 (5 / 100)) =
     100000 + sum_list (map snd [(5::int, 17000::real), (12, 35000), (21, - 55000)]) +
     fst (calculate_monthly_interest 100000 [(5, 17000), (12, 35000), (21, - 55000)] 31 (5 / 100)) \<and>
   fst (calculate_monthly_interest 100000 [(5, 17000), (12, 35000), (21, - 55000)] 31 (5 / 100)) =
     sub_period_interest 100000 [(5, 17000), (12, 35000), (21, - 55000)] 31 (5 / 100)"
  using closing_balance_and_sub_period_interest
    [of "[(5, 17000), (12, 35000), (21, - 55000)]" 31 100000 "5 / 100"]
  by simp

text \<open>
  Claim C10. For the empty transactions dictionary (and a month of \<open>days_in_month \<ge> 0\<close>
  days, which covers every positive day count), \<open>calculate_monthly_interest\<close> returns the
  total interest \<open>start_balance * (annual_rate / 365) * days_in_month\<close>, the accrual of the one
  sub-period that the sentinel of day \<open>days_in_month + 1\<close> closes, and the closing balance
  \<open>start_balance\<close> plus that interest.
\<close>

theorem empty_month_single_period:
  assumes "0 \<le> days_in_month"
  shows "calculate_monthly_interest start_balance [] days_in_month annual_rate =
           (start_balance * (annual_rate / 365) * of_int days_in_month,
            start_balance + start_balance * (annual_rate / 365) * of_int days_in_month)"
proof (cases "days_in_month = 0")
  case True
  then show ?thesis
    by (simp add: calculate_monthly_interest_def sorted_transactions_def Let_def)
next
  case False
  with assms have "0 < days_in_month" by simp
  then show ?thesis
    by (simp add: calculate_monthly_interest_def sorted_transactions_def Let_def)
qed

theorem empty_month_single_period_witness:
  "(0::int) \<le> 31 \<and>
   calculate_monthly_interest 100000 [] 31 (5 / 100) = (31000 / 73, 7331000 / 73)"
  using empty_month_single_period [of 31 100000 "5 / 100"] by simp

text \<open>
  Claim C9. When the caller's dictionary already has the key \<open>days_in_month + 1\<close>, the
  assignment of line 9 adds no item: it keeps the sorted keys and overwrites that entry's
  amount with 0. The amount is applied to no balance: the closing balance is the starting
  balance plus the sum of the amounts of the other days plus the total interest.
\<close>

theorem sentinel_day_overwritten:
  assumes "distinct (map fst transactions)"
    and "(days_in_month + 1, amount) \<in> set transactions"
  shows "map fst (sorted_transactions transactions days_in_month) =
           map fst (sort_key fst transactions) \<and>
         map_of (sorted_transactions transactions days_in_month) (days_in_month + 1) = Some 0 \<and>
         snd (calculate_monthly_interest start_balance transactions days_in_month annual_rate) =
           start_balance +
           sum_list (map snd (filter (\<lambda>item. fst item \<noteq> days_in_month + 1) transactions)) +
           fst (calculate_monthly_interest start_balance transactions days_in_month annual_rate)"
proof -
  let ?S = "sort_key fst transactions"
  have "days_in_month + 1 \<in> fst ` set ?S"
    using assms(2) by force
  then have keys: "map fst (sorted_transactions transactions days_in_month) = map fst ?S"
    unfolding sorted_transactions_def by (rule dict_setitem_keys)
  have val: "map_of (sorted_transactions transactions days_in_month) (days_in_month + 1) = Some 0"
    unfolding sorted_transactions_def by (rule dict_setitem_value)
  have "distinct (map fst ?S)"
    using assms(1) by (simp add: map_sort_key)
  then have "sum_list (map snd (sorted_transactions transactions days_in_month)) =
          sum_list (map snd (filter (\<lambda>item. fst item \<noteq> days_in_month + 1) ?S))"
    unfolding sorted_transactions_def by (rule sum_dict_setitem)
  also have "\<dots> = sum_list (map snd (filter (\<lambda>item. fst item \<noteq> days_in_month + 1) transactions))"
    by (rule sum_list_filter_sort_key)
  finally have total: "sum_list (map snd (sorted_transactions transactions days_in_month)) =
     sum_list (map snd (filter (\<lambda>item. fst item \<noteq> days_in_month + 1) transactions))" .
  have "snd (calculate_monthly_interest start_balance transactions days_in_month annual_rate) =
           start_balance +
           sum_list (map snd (filter (\<lambda>item. fst item \<noteq> days_in_month + 1) transactions)) +
           fst (calculate_monthly_interest start_balance transactions days_in_month annual_rate)"
    by (simp only: calculate_monthly_interest_snd total)
  with keys val show ?thesis by blast
qed

theorem sentinel_day_overwritten_witness:
  "distinct (map fst [(5::int, 17000::real), (32, 999), (21, - 55000)]) \<and>
   (31 + 1, 999) \<in> set [(5::int, 17000::real), (32, 999), (21, - 55000)] \<and>
   map fst (sorted_transactions [(5, 17000), (32, 999), (21, - 55000)] 31) = [5, 21, 32] \<and>
   map_of (sorted_transactions [(5, 17000), (32, 999), (21, - 55000)] 31) (31 + 1) = Some 0 \<and>
   snd (calculate_monthly_interest 100000 [(5, 17000), (32, 999), (21, - 55000)] 31 (5 / 100)) =
     100000 + (17000 + - 55000) +
     fst (calculate_monthly_interest 100000 [(5, 17000), (32, 999), (21, - 55000)] 31 (5 / 100))"
  using sentinel_day_overwritten
    [of "[(5, 17000), (32, 999), (21, - 55000)]" 31 999 100000 "5 / 100"]
  by simp

section \<open>Accrual: order of processing\<close>




section \<open>Accrual: the state when the loop reaches a day\<close>

lemma takeWhile_before_day:
  assumes "sorted_wrt (<) (map fst (items :: transactions))" and "d \<in> fst ` set items"
  shows "takeWhile (\<lambda>item. fst item \<noteq> d) items = filter (\<lambda>item. fst item < d) items"
  using assms
proof (induction items)
  case Nil
  then show ?case by simp
next
  case (Cons item items)
  from Cons.prems(1) have later: "\<forall>x\<in>set items. fst item < fst x"
    and sorted: "sorted_wrt (<) (map fst items)" by auto
  show ?case
  proof (cases "fst item = d")
    case True
    with later have "filter (\<lambda>x. fst x < d) items = []"
      by (auto simp: filter_empty_conv)
    with True show ?thesis by simp
  next
    case False
    with Cons.prems(2) have d: "d \<in> fst ` set items" by auto
    with later have "fst item < d" by auto
    with False Cons.IH [OF sorted d] show ?thesis by simp
  qed
qed

lemma takeWhile_dict_setitem:
  assumes "sorted_wrt (<) (map fst items)" and "d \<in> fst ` set items" and "d < key"
  shows "takeWhile (\<lambda>item. fst item \<noteq> d) (dict_setitem items key v) =
         takeWhile (\<lambda>item. fst item \<noteq> d) items"
  using assms
proof (induction items key v rule: dict_setitem.induct)
  case (1 key v)
  then show ?case by simp
next
  case (2 k a items key v)
  from "2.prems"(1) have later: "\<forall>x\<in>set items. k < fst x"
    and sorted: "sorted_wrt (<) (map fst items)" by auto
  show ?case
  proof (cases "k = d")
    case True
    with "2.prems"(3) show ?thesis by simp
  next
    case False
    with "2.prems"(2) have d: "d \<in> fst ` set items" by auto
    with later have "k < d" by auto
    with "2.prems"(3) have "k \<noteq> key" by simp
    with False "2.IH" [OF this sorted d "2.prems"(3)] show ?thesis by simp
  qed
qed

lemma foldr_max_upper: "\<forall>k\<in>set ks. k \<le> foldr max ks (m::int)"
  by (induction ks) auto

lemma foldr_max_member: "foldr max ks (m::int) \<in> insert m (set ks)"
  by (induction ks) (auto simp: max_def)

lemma sorted_le_last: "sorted xs \<Longrightarrow> x \<in> set xs \<Longrightarrow> x \<le> last (xs :: int list)"
  by (induction xs) auto

lemma previous_day_last:
  assumes "\<forall>k\<in>set ks. (1::int) \<le> k" and "ks \<noteq> []"
  shows "foldr max ks 1 = last (sort ks)"
proof (rule antisym)
  have ne: "sort ks \<noteq> []" using assms(2) by (metis length_0_conv length_sort)
  then have l: "last (sort ks) \<in> set ks" using last_in_set [OF ne] by simp
  with foldr_max_upper [of ks 1] show "last (sort ks) \<le> foldr max ks 1" by blast
  have top: "k \<le> last (sort ks)" if "k \<in> set ks" for k
    using that by (intro sorted_le_last) simp_all
  from foldr_max_member [of ks 1] show "foldr max ks 1 \<le> last (sort ks)"
  proof
    assume "foldr max ks 1 = 1"
    with assms(1) l show ?thesis by auto
  next
    assume "foldr max ks 1 \<in> set ks"
    then show ?thesis by (rule top)
  qed
qed

lemma state_before_day:
  assumes "distinct (map fst transactions)"
    and "(d, a) \<in> set transactions" and "d \<le> days_in_month"
  shows "state_before start_balance transactions days_in_month annual_rate d =
           accrual_loop (annual_rate / 365)
             (sort_key fst (filter (\<lambda>item. fst item < d) transactions)) (0, start_balance, 0)"
proof -
  let ?S = "sort_key fst transactions"
  have asc: "sorted_wrt (<) (map fst ?S)" by (rule keys_ascending [OF assms(1)])
  have d: "d \<in> fst ` set ?S" using assms(2) by force
  have "takeWhile (\<lambda>item. fst item \<noteq> d) (sorted_transactions transactions days_in_month) =
          takeWhile (\<lambda>item. fst item \<noteq> d) ?S"
    unfolding sorted_transactions_def using assms(3)
    by (intro takeWhile_dict_setitem [OF asc d]) simp
  also have "\<dots> = filter (\<lambda>item. fst item < d) ?S"
    by (rule takeWhile_before_day [OF asc d])
  also have "\<dots> = sort_key fst (filter (\<lambda>item. fst item < d) transactions)"
    by (rule filter_sort)
  finally show ?thesis by (simp add: state_before_def)
qed

lemma day_contribution:
  assumes "distinct (map fst transactions)"
    and "\<forall>k\<in>set (map fst transactions). 1 \<le> k"
    and "(d, a) \<in> set transactions" and "d \<le> days_in_month"
  shows "pre_transaction_days start_balance transactions days_in_month annual_rate d =
           d - previous_day transactions d"
    and "pre_transaction_interest start_balance transactions days_in_month annual_rate (d, a) =
           balance_held start_balance transactions (d - 1) * (annual_rate / 365)
             * of_int (d - previous_day transactions d)"
    and "previous_day transactions d \<le> d"
    and "1 < d \<Longrightarrow> previous_day transactions d < d"
proof -
  define F where "F = filter (\<lambda>item. fst item < d) transactions"
  define B where "B = sort_key fst F"
  let ?r = "annual_rate / 365"
  let ?st = "state_before start_balance transactions days_in_month annual_rate d"
  obtain ti bal p where st: "?st = (ti, bal, p)" by (cases ?st)
  have loop: "accrual_loop ?r B (0, start_balance, 0) = (ti, bal, p)"
    using state_before_day [OF assms(1,3,4), of start_balance annual_rate] st
    by (simp add: B_def F_def)
  have keys: "map fst B = sort (map fst F)" unfolding B_def by (rule map_sort_key)
  have prev: "previous_day transactions d = foldr max (map fst F) 1"
    by (simp add: previous_day_def F_def filter_map comp_def)
  have F1: "\<forall>k\<in>set (map fst F). 1 \<le> k" using assms(2) by (auto simp: F_def)
  have Fd: "\<forall>k\<in>set (map fst F). k < d" by (auto simp: F_def)
  have p: "p = previous_day transactions d - 1"
  proof (cases "F = []")
    case True
    with loop prev show ?thesis by (simp add: B_def)
  next
    case False
    then have ne: "B \<noteq> []" unfolding B_def by (metis length_0_conv length_sort)
    from accrual_loop_day [of ?r B 0 start_balance 0] loop ne
    have "p = fst (last B) - 1" by simp
    also have "fst (last B) = last (map fst B)" using ne by (simp add: last_map)
    also have "\<dots> = foldr max (map fst F) 1"
      unfolding keys using previous_day_last [OF F1] False by simp
    finally show ?thesis by (simp add: prev)
  qed
  have "previous_day transactions d \<in> insert 1 (set (map fst F))"
    unfolding prev by (rule foldr_max_member)
  moreover have "1 \<le> d" using assms(2,3) by force
  ultimately show le: "previous_day transactions d \<le> d"
    and "1 < d \<Longrightarrow> previous_day transactions d < d"
    using Fd by auto
  have bal: "bal = balance_held start_balance transactions (d - 1)"
  proof -
    from accrual_loop_balance [of ?r B 0 start_balance 0] loop
    have "bal = start_balance + sum_list (map snd B)" by simp
    also have "sum_list (map snd B) = sum_list (map snd F)"
      unfolding B_def by (rule sum_list_sort_key)
    also have "F = filter (\<lambda>item. fst item \<le> d - 1) transactions"
      unfolding F_def by (rule filter_cong) auto
    finally show ?thesis by (simp add: balance_held_def)
  qed
  show "pre_transaction_days start_balance transactions days_in_month annual_rate d =
           d - previous_day transactions d"
    by (simp add: pre_transaction_days_def st p)
  have "p + 1 \<le> d" using le p by simp
  from accrual_step_interest [OF this, of ?r a ti bal]
  show "pre_transaction_interest start_balance transactions days_in_month annual_rate (d, a) =
           balance_held start_balance transactions (d - 1) * (annual_rate / 365)
             * of_int (d - previous_day transactions d)"
    by (simp add: pre_transaction_interest_def st p bal Let_def)
qed

text \<open>
  Claim C7. For every transactions dictionary with 1-based day keys and a month of
  \<open>days_in_month > 0\<close> days: when the loop reaches a transaction dated on day 1, its
  \<open>num_days\<close> is 0 and it adds no interest; when it reaches a transaction dated on the last day
  \<open>days_in_month\<close>, its \<open>num_days\<close> counts every day from the previous transaction day (or
  from day 1) up to the day before, a positive number when the month has more than one day,
  and it adds the interest of those days on the balance held before the transaction.
\<close>

theorem first_and_last_day_transactions:
  assumes "distinct (map fst transactions)"
    and "\<forall>k\<in>set (map fst transactions). 1 \<le> k"
    and "0 < days_in_month"
  shows "((1, a) \<in> set transactions \<longrightarrow>
            pre_transaction_days start_balance transactions days_in_month annual_rate 1 = 0 \<and>
            pre_transaction_interest start_balance transactions days_in_month annual_rate (1, a) = 0) \<and>
         ((days_in_month, b) \<in> set transactions \<longrightarrow>
            pre_transaction_days start_balance transactions days_in_month annual_rate days_in_month =
              days_in_month - previous_day transactions days_in_month \<and>
            (1 < days_in_month \<longrightarrow>
               0 < pre_transaction_days start_balance transactions days_in_month annual_rate
                     days_in_month) \<and>
            pre_transaction_interest start_balance transactions days_in_month annual_rate
                (days_in_month, b) =
              balance_held start_balance transactions (days_in_month - 1) * (annual_rate / 365)
                * of_int (days_in_month - previous_day transactions days_in_month))"
proof -
  have first: "pre_transaction_days start_balance transactions days_in_month annual_rate 1 = 0 \<and>
      pre_transaction_interest start_balance transactions days_in_month annual_rate (1, a) = 0"
    if "(1, a) \<in> set transactions"
  proof -
    have le: "1 \<le> days_in_month" using assms(3) by simp
    have "filter (\<lambda>k. k < 1) (map fst transactions) = []"
      using assms(2) by (auto simp: filter_empty_conv)
    then have "previous_day transactions 1 = 1" by (simp add: previous_day_def)
    with day_contribution(1,2) [OF assms(1,2) that le, of start_balance annual_rate]
    show ?thesis by simp
  qed
  have last: "pre_transaction_days start_balance transactions days_in_month annual_rate days_in_month =
              days_in_month - previous_day transactions days_in_month \<and>
            (1 < days_in_month \<longrightarrow>
               0 < pre_transaction_days start_balance transactions days_in_month annual_rate
                     days_in_month) \<and>
            pre_transaction_interest start_balance transactions days_in_month annual_rate
                (days_in_month, b) =
              balance_held start_balance transactions (days_in_month - 1) * (annual_rate / 365)
                * of_int (days_in_month - previous_day transactions days_in_month)"
    if "(days_in_month, b) \<in> set transactions"
    using day_contribution(1,2) [OF assms(1,2) that order_refl, of start_balance annual_rate]
      day_contribution(4) [OF assms(1,2) that order_refl]
    by simp
  from first last show ?thesis by blast
qed

theorem first_and_last_day_transactions_witness:
  "distinct (map fst [(1::int, 17000::real), (12, 35000), (31, - 55000)]) \<and>
   list_all (\<lambda>k. 1 \<le> k) (map fst [(1::int, 17000::real), (12, 35000), (31, - 55000)]) \<and>
   (0::int) < 31 \<and>
   (1, 17000) \<in> set [(1::int, 17000::real), (12, 35000), (31, - 55000)] \<and>
   (31, - 55000) \<in> set [(1::int, 17000::real), (12, 35000), (31, - 55000)] \<and>
   pre_transaction_days 100000 [(1, 17000), (12, 35000), (31, - 55000)] 31 (5 / 100) 1 = 0 \<and>
   pre_transaction_interest 100000 [(1, 17000), (12, 35000), (31, - 55000)] 31 (5 / 100)
     (1, 17000) = 0 \<and>
   pre_transaction_days 100000 [(1, 17000), (12, 35000), (31, - 55000)] 31 (5 / 100) 31 = 19 \<and>
   pre_transaction_interest 100000 [(1, 17000), (12, 35000), (31, - 55000)] 31 (5 / 100)
     (31, - 55000) = 152000 * (5 / 100 / 365) * 19"
  using first_and_last_day_transactions
    [of "[(1, 17000), (12, 35000), (31, - 55000)]" 31 17000 100000 "5 / 100" "- 55000"]
  by (simp add: previous_day_def balance_held_def)

end
